theory Spec2Isabelle
  imports Main "HOL-Library.Sublist"
begin

section \<open>The task store of TaskFlow\<close>

text \<open>
  A shallow embedding of \<^verbatim>\<open>src/stores/taskStore.ts\<close> and \<^verbatim>\<open>src/types/task.ts\<close>.
  The store keeps one array of tasks in memory, writes the whole array to the browser's
  local storage after every successful change, and reads it back once when it is created.

  Strings are \<^typ>\<open>string\<close>; a character stands for the UTF-16 code unit of the same
  value, so the texts covered are those over U+0000..U+00FF. Numbers are \<^typ>\<open>int\<close>:
  the store only ever produces \<^verbatim>\<open>Date.now()\<close> readings and list lengths, and it
  inspects a stored number by its type tag alone.
\<close>

subsection \<open>Values read from and written to storage\<close>

text \<open>
  What \<^verbatim>\<open>LocalStorage.getItem\<close> hands back: a JSON-decoded value. An object is the
  list of its properties; a property is read with \<open>map_of\<close>, so the first binding of a
  key is the one that counts.
\<close>

datatype json =
    JNull
  | JBool bool
  | JNum int
  | JStr string
  | JArr "json list"
  | JObj "(string \<times> json) list"

datatype js_type = T_undefined | T_object | T_boolean | T_number | T_string

text \<open>\<^verbatim>\<open>typeof v\<close>, where \<open>None\<close> is \<^verbatim>\<open>undefined\<close> (a property that is not there).\<close>

fun typeof :: "json option \<Rightarrow> js_type" where
  "typeof None = T_undefined"
| "typeof (Some JNull) = T_object"
| "typeof (Some (JBool b)) = T_boolean"
| "typeof (Some (JNum n)) = T_number"
| "typeof (Some (JStr s)) = T_string"
| "typeof (Some (JArr xs)) = T_object"
| "typeof (Some (JObj fs)) = T_object"

text \<open>
  \<^verbatim>\<open>item.k\<close> for the property names the store reads. An array has no property of
  these names (its own are the indices and \<^verbatim>\<open>length\<close>); a primitive has none either.
  Reading a property of \<^verbatim>\<open>null\<close> would throw, and the source never does it: the test
  \<^verbatim>\<open>item !== null\<close> comes first in the conjunction.
\<close>

fun get_prop :: "json \<Rightarrow> string \<Rightarrow> json option" where
  "get_prop (JObj fs) k = map_of fs k"
| "get_prop v k = None"

datatype js_error = Error string

subsection \<open>Types of \<^verbatim>\<open>types/task.ts\<close>\<close>

text \<open>
  The interface \<^verbatim>\<open>Task\<close> declares four fields. An object taken over from storage is
  kept as it was parsed, with whatever further properties it carried; \<open>others\<close> holds
  them. A task made by \<open>addTask\<close> has none.
\<close>

record Task =
  id' :: string
  "text" :: string
  completed :: bool
  createdAt :: int
  others :: "(string \<times> json) list"

datatype TaskFilter = All | Completed | Pending

record TaskStats =
  total :: nat
  completed_count :: nat
  pending_count :: nat

subsection \<open>Built-in string operations\<close>

text \<open>
  White space and line terminators as \<^verbatim>\<open>String.prototype.trim\<close> knows them, within
  U+0000..U+00FF: TAB, LF, VT, FF, CR, SPACE and NO-BREAK SPACE.
\<close>

definition is_ws :: "char \<Rightarrow> bool" where
  "is_ws c = (c \<in> set [CHR 0x09, CHR 0x0A, CHR 0x0B, CHR 0x0C, CHR 0x0D, CHR 0x20, CHR 0xA0])"

definition trim :: "string \<Rightarrow> string" where
  "trim s = rev (dropWhile is_ws (rev (dropWhile is_ws s)))"

text \<open>\<^verbatim>\<open>s.substring(a, b)\<close> for indices that are natural numbers.\<close>

definition substring :: "nat \<Rightarrow> nat \<Rightarrow> string \<Rightarrow> string" where
  "substring a b s = take (max a b - min a b) (drop (min a b) s)"

text \<open>
  A number inside a template literal: the decimal digits, with a sign when negative.
  (Exact below \<open>10^21\<close> in magnitude, far beyond any \<^verbatim>\<open>Date.now()\<close>.)
\<close>

function dec :: "nat \<Rightarrow> string" where
  "dec n = (if n < 10 then [''0123456789'' ! n] else dec (n div 10) @ [''0123456789'' ! (n mod 10)])"
  by pat_completeness auto
termination
  by (relation "measure (\<lambda>n. n)") auto

declare dec.simps [simp del]

definition number_to_string :: "int \<Rightarrow> string" where
  "number_to_string i = (if i < 0 then CHR ''-'' # dec (nat (- i)) else dec (nat i))"

text \<open>
  \<^verbatim>\<open>xs.findIndex(p)\<close>: the position of the first element that satisfies \<open>p\<close>;
  \<open>None\<close> is the source's \<open>-1\<close>. \<^verbatim>\<open>xs.find(p)\<close> is the element at that position.
\<close>

fun findIndex :: "('a \<Rightarrow> bool) \<Rightarrow> 'a list \<Rightarrow> nat option" where
  "findIndex p [] = None"
| "findIndex p (x # xs) = (if p x then Some 0 else map_option Suc (findIndex p xs))"

subsection \<open>The collaborators: local storage, console, notifications\<close>

text \<open>
  Quasar's \<^verbatim>\<open>LocalStorage\<close>: the stored values by key, and what the next read or
  write throws, if it throws (a full or a forbidden storage). A write that throws
  stores nothing.
\<close>

record LocalStorage =
  items :: "string \<rightharpoonup> json"
  getItem_error :: "js_error option"
  set_error :: "js_error option"

definition getItem :: "LocalStorage \<Rightarrow> string \<Rightarrow> js_error + json" where
  "getItem ls k =
     (case getItem_error ls of
        Some e \<Rightarrow> Inl e
      | None \<Rightarrow> Inr (case items ls k of None \<Rightarrow> JNull | Some v \<Rightarrow> v))"

definition setItem :: "LocalStorage \<Rightarrow> string \<Rightarrow> json \<Rightarrow> js_error + LocalStorage" where
  "setItem ls k v =
     (case set_error ls of
        Some e \<Rightarrow> Inl e
      | None \<Rightarrow> Inr (ls\<lparr>items := (items ls)(k \<mapsto> v)\<rparr>))"

definition removeItem :: "LocalStorage \<Rightarrow> string \<Rightarrow> LocalStorage" where
  "removeItem ls k = ls\<lparr>items := (items ls)(k := None)\<rparr>"

text \<open>
  The effects a call leaves besides its result, in the order they happen: console
  lines, notifications, and the calls that write to storage (a \<open>StorageSet\<close> is logged
  when the write is attempted, whether or not it throws).
\<close>

datatype event =
    ConsoleWarn string
  | ConsoleError string js_error
  | NotifyCreate string string string
  | StorageSet string json
  | StorageRemove string

record state =
  tasks :: "Task list"
  storage :: LocalStorage
  effects :: "event list"

subsection \<open>\<^verbatim>\<open>stores/taskStore.ts\<close>\<close>

definition STORAGE_KEY :: string where
  "STORAGE_KEY = ''taskflow-tasks''"

text \<open>
  \<^verbatim>\<open>generateId\<close> reads the clock and draws a random number. Both are inputs here:
  \<open>now\<close> is the value of \<^verbatim>\<open>Date.now()\<close> and \<open>r36\<close> the value of
  \<^verbatim>\<open>Math.random().toString(36)\<close>, a string such as \<^verbatim>\<open>0.k3j9x2m1p8\<close>.
\<close>

definition generateId :: "int \<Rightarrow> string \<Rightarrow> string" where
  "generateId now r36 = ''task-'' @ number_to_string now @ ''-'' @ substring 2 9 r36"

definition isTask :: "json \<Rightarrow> bool" where
  "isTask item =
     (typeof (Some item) = T_object \<and>
      item \<noteq> JNull \<and>
      typeof (get_prop item ''id'') = T_string \<and>
      typeof (get_prop item ''text'') = T_string \<and>
      typeof (get_prop item ''completed'') = T_boolean \<and>
      typeof (get_prop item ''createdAt'') = T_number)"

definition isValidTaskArray :: "json \<Rightarrow> bool" where
  "isValidTaskArray data = (case data of JArr xs \<Rightarrow> list_all isTask xs | _ \<Rightarrow> False)"

text \<open>
  The source returns the validated value itself, typed as \<^verbatim>\<open>Task[]\<close>. \<open>asTask\<close>
  is that change of view: the four fields of the interface, and the remaining
  properties under \<open>others\<close>. \<open>toJSON\<close> is the way back, as \<^verbatim>\<open>LocalStorage.set\<close>
  serialises a task.
\<close>

definition task_keys :: "string list" where
  "task_keys = [''id'', ''text'', ''completed'', ''createdAt'']"

definition asTask :: "json \<Rightarrow> Task option" where
  "asTask item =
     (case (item, get_prop item ''id'', get_prop item ''text'',
            get_prop item ''completed'', get_prop item ''createdAt'') of
        (JObj fs, Some (JStr i), Some (JStr t), Some (JBool c), Some (JNum n)) \<Rightarrow>
          Some \<lparr>id' = i, text = t, completed = c, createdAt = n,
                others = filter (\<lambda>kv. fst kv \<notin> set task_keys) fs\<rparr>
      | _ \<Rightarrow> None)"

fun asTasks :: "json list \<Rightarrow> Task list option" where
  "asTasks [] = Some []"
| "asTasks (x # xs) =
     (case asTask x of
        None \<Rightarrow> None
      | Some t \<Rightarrow> (case asTasks xs of None \<Rightarrow> None | Some ts \<Rightarrow> Some (t # ts)))"

definition toJSON :: "Task \<Rightarrow> json" where
  "toJSON t =
     JObj ([(''id'', JStr (id' t)), (''text'', JStr (text t)),
            (''completed'', JBool (completed t)), (''createdAt'', JNum (createdAt t))]
           @ others t)"

text \<open>
  \<^verbatim>\<open>loadTasksFromStorage\<close>: the list the store starts with, the storage as the call
  leaves it, and the effects of the call. The last branch of the inner case is never
  taken (a value that passes \<open>isValidTaskArray\<close> is an array of tasks, lemma
  \<open>asTasks_valid\<close> below).
\<close>

definition loadTasksFromStorage :: "LocalStorage \<Rightarrow> Task list \<times> LocalStorage \<times> event list" where
  "loadTasksFromStorage ls =
     (case getItem ls STORAGE_KEY of
        Inl e \<Rightarrow> ([], ls, [ConsoleError ''[TaskStore] Error loading tasks from storage:'' e])
      | Inr stored \<Rightarrow>
          if stored = JNull then ([], ls, [])
          else if \<not> isValidTaskArray stored then
            ([], removeItem ls STORAGE_KEY,
             [ConsoleWarn ''[TaskStore] Invalid data in localStorage, resetting tasks'',
              StorageRemove STORAGE_KEY])
          else
            (case stored of
               JArr xs \<Rightarrow> (case asTasks xs of Some ts \<Rightarrow> (ts, ls, []) | None \<Rightarrow> ([], ls, []))
             | _ \<Rightarrow> ([], ls, [])))"

text \<open>\<^verbatim>\<open>useTaskStore\<close>: the state in which the store is created.\<close>

definition useTaskStore :: "LocalStorage \<Rightarrow> state" where
  "useTaskStore ls =
     (case loadTasksFromStorage ls of
        (ts, ls', es) \<Rightarrow> \<lparr>tasks = ts, storage = ls', effects = es\<rparr>)"

definition saveTasksToStorage :: "state \<Rightarrow> state" where
  "saveTasksToStorage s =
     (let payload = JArr (map toJSON (tasks s)) in
      case setItem (storage s) STORAGE_KEY payload of
        Inr ls' \<Rightarrow>
          s\<lparr>storage := ls', effects := effects s @ [StorageSet STORAGE_KEY payload]\<rparr>
      | Inl e \<Rightarrow>
          s\<lparr>effects := effects s @
               [StorageSet STORAGE_KEY payload,
                ConsoleError ''[TaskStore] Error saving tasks to storage:'' e,
                NotifyCreate ''negative'' ''Failed to save tasks. Storage might be full.'' ''error'']\<rparr>)"

definition stats :: "state \<Rightarrow> TaskStats" where
  "stats s =
     \<lparr>total = length (tasks s),
      completed_count = length (filter (\<lambda>task. completed task) (tasks s)),
      pending_count = length (filter (\<lambda>task. \<not> completed task) (tasks s))\<rparr>"

fun getFilteredTasks :: "TaskFilter \<Rightarrow> state \<Rightarrow> Task list" where
  "getFilteredTasks Completed s = filter (\<lambda>task. completed task) (tasks s)"
| "getFilteredTasks Pending s = filter (\<lambda>task. \<not> completed task) (tasks s)"
| "getFilteredTasks All s = tasks s"

text \<open>
  \<^verbatim>\<open>addTask\<close>. The two clock readings (\<open>now_id\<close> inside \<open>generateId\<close>, \<open>now_created\<close>
  for \<open>createdAt\<close>) and the random draw are inputs. \<open>Inl\<close> is the exception thrown; the
  state comes back in both cases.
\<close>

definition addTask :: "string \<Rightarrow> int \<Rightarrow> string \<Rightarrow> int \<Rightarrow> state \<Rightarrow> (js_error + Task) \<times> state" where
  "addTask txt now_id r36 now_created s =
     (let trimmedText = trim txt in
      if trimmedText = [] then (Inl (Error ''Task text cannot be empty''), s)
      else
        let newTask = \<lparr>id' = generateId now_id r36, text = trimmedText, completed = False,
                       createdAt = now_created, others = []\<rparr>
        in (Inr newTask, saveTasksToStorage (s\<lparr>tasks := newTask # tasks s\<rparr>)))"

definition not_found_warning :: "string \<Rightarrow> string" where
  "not_found_warning tid = ''[TaskStore] Task with id '' @ [CHR 0x22] @ tid @ [CHR 0x22] @ '' not found''"

text \<open>
  \<^verbatim>\<open>toggleTask\<close>. \<^verbatim>\<open>find\<close> hands back the first task object with the id, and the
  assignment changes that object where it sits in the array. No task object occurs
  twice in the array (each is made once, by \<open>addTask\<close> or by the JSON parser), so the
  assignment is an update of the array at the position of the first match.
\<close>

definition toggleTask :: "string \<Rightarrow> state \<Rightarrow> bool \<times> state" where
  "toggleTask tid s =
     (case findIndex (\<lambda>t. id' t = tid) (tasks s) of
        None \<Rightarrow> (False, s\<lparr>effects := effects s @ [ConsoleWarn (not_found_warning tid)]\<rparr>)
      | Some i \<Rightarrow>
          (True,
           saveTasksToStorage
             (s\<lparr>tasks := (tasks s)[i := (tasks s ! i)\<lparr>completed := \<not> completed (tasks s ! i)\<rparr>]\<rparr>)))"

definition deleteTask :: "string \<Rightarrow> state \<Rightarrow> bool \<times> state" where
  "deleteTask tid s =
     (case findIndex (\<lambda>t. id' t = tid) (tasks s) of
        None \<Rightarrow> (False, s\<lparr>effects := effects s @ [ConsoleWarn (not_found_warning tid)]\<rparr>)
      | Some index \<Rightarrow>
          (True, saveTasksToStorage (s\<lparr>tasks := take index (tasks s) @ drop (Suc index) (tasks s)\<rparr>)))"

definition clearCompleted :: "state \<Rightarrow> nat \<times> state" where
  "clearCompleted s =
     (let completedCount = length (filter (\<lambda>t. completed t) (tasks s)) in
      (completedCount, saveTasksToStorage (s\<lparr>tasks := filter (\<lambda>t. \<not> completed t) (tasks s)\<rparr>)))"

definition updateTask :: "string \<Rightarrow> string \<Rightarrow> state \<Rightarrow> bool \<times> state" where
  "updateTask tid txt s =
     (case findIndex (\<lambda>t. id' t = tid) (tasks s) of
        None \<Rightarrow> (False, s\<lparr>effects := effects s @ [ConsoleWarn (not_found_warning tid)]\<rparr>)
      | Some i \<Rightarrow>
          let trimmedText = trim txt in
          if trimmedText = [] then
            (False,
             s\<lparr>effects := effects s @ [ConsoleWarn ''[TaskStore] Cannot update task with empty text'']\<rparr>)
          else
            (True, saveTasksToStorage (s\<lparr>tasks := (tasks s)[i := (tasks s ! i)\<lparr>text := trimmedText\<rparr>]\<rparr>)))"

subsection \<open>The states a store can be in\<close>

text \<open>
  A store is created from whatever the storage holds and then changes only through its
  five operations.
\<close>

inductive reachable :: "state \<Rightarrow> bool" where
  created: "reachable (useTaskStore ls)"
| added: "reachable s \<Longrightarrow> reachable (snd (addTask txt now_id r36 now_created s))"
| toggled: "reachable s \<Longrightarrow> reachable (snd (toggleTask tid s))"
| deleted: "reachable s \<Longrightarrow> reachable (snd (deleteTask tid s))"
| cleared: "reachable s \<Longrightarrow> reachable (snd (clearCompleted s))"
| updated: "reachable s \<Longrightarrow> reachable (snd (updateTask tid txt s))"

definition ids :: "state \<Rightarrow> string list" where
  "ids s = map id' (tasks s)"

subsection \<open>The stored snapshot in the specification's words\<close>

text \<open>
  A snapshot is good when it is an array in which every element has a string \<open>id\<close>, a
  string \<open>text\<close>, a boolean \<open>completed\<close> and a numeric \<open>createdAt\<close>. This is written
  from the specification, to be compared with \<open>isValidTaskArray\<close> of the source.
\<close>

fun is_string :: "json option \<Rightarrow> bool" where
  "is_string (Some (JStr s)) = True"
| "is_string v = False"

fun is_boolean :: "json option \<Rightarrow> bool" where
  "is_boolean (Some (JBool b)) = True"
| "is_boolean v = False"

fun is_number :: "json option \<Rightarrow> bool" where
  "is_number (Some (JNum n)) = True"
| "is_number v = False"

definition spec_element_ok :: "json \<Rightarrow> bool" where
  "spec_element_ok x =
     (is_string (get_prop x ''id'') \<and> is_string (get_prop x ''text'') \<and>
      is_boolean (get_prop x ''completed'') \<and> is_number (get_prop x ''createdAt''))"

definition spec_snapshot_ok :: "json \<Rightarrow> bool" where
  "spec_snapshot_ok v = (case v of JArr xs \<Rightarrow> list_all spec_element_ok xs | _ \<Rightarrow> False)"

subsection \<open>Read-only views used in the statements\<close>

text \<open>The events that are calls writing to storage.\<close>

definition is_write :: "event \<Rightarrow> bool" where
  "is_write e = (case e of StorageSet k v \<Rightarrow> True | StorageRemove k \<Rightarrow> True | _ \<Rightarrow> False)"

subsection \<open>Concrete stores for the examples\<close>

definition fresh_storage :: LocalStorage where
  "fresh_storage = \<lparr>items = Map.empty, getItem_error = None, set_error = None\<rparr>"

definition buy_milk :: Task where
  "buy_milk = \<lparr>id' = ''task-1700000000000-k3j9x2m'', text = ''Buy milk'', completed = False,
               createdAt = 1700000000000, others = []\<rparr>"

definition walk_dog :: Task where
  "walk_dog = \<lparr>id' = ''task-1700000000555-q8w2e4r'', text = ''Walk dog'', completed = False,
               createdAt = 1700000000555, others = []\<rparr>"

definition two_tasks :: state where
  "two_tasks = \<lparr>tasks = [walk_dog, buy_milk], storage = fresh_storage, effects = []\<rparr>"

definition one_done :: state where
  "one_done = \<lparr>tasks = [walk_dog, buy_milk\<lparr>completed := True\<rparr>], storage = fresh_storage,
               effects = []\<rparr>"

text \<open>The store after one \<open>addTask\<close> on an empty storage.\<close>

definition after_first_add :: state where
  "after_first_add =
     snd (addTask ''Buy milk'' 1700000000000 ''0.k3j9x2m1p8'' 1700000000000 (useTaskStore fresh_storage))"

text \<open>A storage holding two tasks, the second with a property of its own.\<close>

definition saved_snapshot :: json where
  "saved_snapshot =
     JArr [JObj [(''id'', JStr ''task-1700000000555-q8w2e4r''), (''text'', JStr ''Walk dog''),
                 (''completed'', JBool False), (''createdAt'', JNum 1700000000555)],
           JObj [(''id'', JStr ''task-1700000000000-k3j9x2m''), (''text'', JStr ''Buy milk''),
                 (''completed'', JBool False), (''createdAt'', JNum 1700000000000),
                 (''note'', JStr ''2 litres'')]]"

definition saved_storage :: LocalStorage where
  "saved_storage = \<lparr>items = [STORAGE_KEY \<mapsto> saved_snapshot], getItem_error = None, set_error = None\<rparr>"

text \<open>The same, with \<open>completed\<close> missing from the second element.\<close>

definition corrupt_snapshot :: json where
  "corrupt_snapshot =
     JArr [JObj [(''id'', JStr ''task-1700000000555-q8w2e4r''), (''text'', JStr ''Walk dog''),
                 (''completed'', JBool False), (''createdAt'', JNum 1700000000555)],
           JObj [(''id'', JStr ''task-1700000000000-k3j9x2m''), (''text'', JStr ''Buy milk''),
                 (''createdAt'', JNum 1700000000000)]]"

definition corrupt_storage :: LocalStorage where
  "corrupt_storage = \<lparr>items = [STORAGE_KEY \<mapsto> corrupt_snapshot], getItem_error = None, set_error = None\<rparr>"

text \<open>A storage whose reads throw.\<close>

definition unreadable_storage :: LocalStorage where
  "unreadable_storage =
     \<lparr>items = [STORAGE_KEY \<mapsto> saved_snapshot], getItem_error = Some (Error ''SecurityError''),
      set_error = None\<rparr>"

text \<open>A storage holding two tasks with the same id.\<close>

definition repeated_snapshot :: json where
  "repeated_snapshot =
     JArr [JObj [(''id'', JStr ''task-1''), (''text'', JStr ''Buy milk''),
                 (''completed'', JBool False), (''createdAt'', JNum 1700000000000)],
           JObj [(''id'', JStr ''task-1''), (''text'', JStr ''Walk dog''),
                 (''completed'', JBool True), (''createdAt'', JNum 1700000000555)]]"

definition repeated_storage :: LocalStorage where
  "repeated_storage =
     \<lparr>items = [STORAGE_KEY \<mapsto> repeated_snapshot], getItem_error = None, set_error = None\<rparr>"

section \<open>Basic facts\<close>

lemma saveTasksToStorage_tasks [simp]: "tasks (saveTasksToStorage s) = tasks s"
  by (simp add: saveTasksToStorage_def Let_def split: sum.splits)

lemma findIndex_None_iff: "findIndex p xs = None \<longleftrightarrow> (\<forall>x \<in> set xs. \<not> p x)"
  by (induction xs) auto

lemma findIndex_Some:
  "findIndex p xs = Some i \<Longrightarrow> i < length xs \<and> p (xs ! i) \<and> (\<forall>j<i. \<not> p (xs ! j))"
proof (induction xs arbitrary: i)
  case Nil
  then show ?case by simp
next
  case (Cons x xs)
  show ?case
  proof (cases "p x")
    case True
    with Cons.prems show ?thesis by simp
  next
    case False
    with Cons.prems obtain k where k: "findIndex p xs = Some k" and i: "i = Suc k"
      by auto
    from Cons.IH [OF k] have "k < length xs" "p (xs ! k)" "\<forall>j<k. \<not> p (xs ! j)"
      by simp_all
    with False i show ?thesis
      by (auto simp: nth_Cons split: nat.splits)
  qed
qed

lemma findIndex_absent: "tid \<notin> set (ids s) \<Longrightarrow> findIndex (\<lambda>t. id' t = tid) (tasks s) = None"
  by (auto simp: findIndex_None_iff ids_def)

lemma findIndex_present:
  "tid \<in> set (ids s) \<Longrightarrow> \<exists>i. findIndex (\<lambda>t. id' t = tid) (tasks s) = Some i"
proof -
  assume "tid \<in> set (ids s)"
  then have "findIndex (\<lambda>t. id' t = tid) (tasks s) \<noteq> None"
    by (auto simp: findIndex_None_iff ids_def)
  then show ?thesis by auto
qed

text \<open>Replacing one element changes a count by what the old and the new element contribute.\<close>

lemma length_filter_update:
  assumes "i < length xs"
  shows "length (filter P (xs[i := y])) + (if P (xs ! i) then 1 else 0)
           = length (filter P xs) + (if P y then 1 else 0)"
proof -
  have u: "xs[i := y] = take i xs @ y # drop (Suc i) xs"
    using assms by (rule upd_conv_take_nth_drop)
  have o: "xs = take i xs @ xs ! i # drop (Suc i) xs"
    using assms by (rule id_take_nth_drop)
  have "length (filter P xs) = length (filter P (take i xs @ xs ! i # drop (Suc i) xs))"
    using o by simp
  then show ?thesis
    by (simp add: u)
qed

lemmas example_defs =
  two_tasks_def one_done_def walk_dog_def buy_milk_def fresh_storage_def

section \<open>The derived reads\<close>

text \<open>
  C8. \<open>stats\<close> gives the length of the list as \<open>total\<close>, the number of positions holding a
  completed task as \<open>completed\<close> and the number of positions holding a task that is not
  completed as \<open>pending\<close>. \<open>getFilteredTasks\<close> gives the list itself for \<open>all\<close>, and for
  \<open>completed\<close> and \<open>pending\<close> the tasks with that flag, in the order they have in the list.
  Both are functions of the state that return no state: they change nothing.
\<close>

theorem stats_and_filters:
  "total (stats s) = length (tasks s) \<and>
   completed_count (stats s) = card {i. i < length (tasks s) \<and> completed (tasks s ! i)} \<and>
   pending_count (stats s) = card {i. i < length (tasks s) \<and> \<not> completed (tasks s ! i)} \<and>
   completed_count (stats s) + pending_count (stats s) = total (stats s) \<and>
   getFilteredTasks All s = tasks s \<and>
   getFilteredTasks Completed s = filter (\<lambda>t. completed t) (tasks s) \<and>
   getFilteredTasks Pending s = filter (\<lambda>t. \<not> completed t) (tasks s) \<and>
   subseq (getFilteredTasks Completed s) (tasks s) \<and>
   subseq (getFilteredTasks Pending s) (tasks s) \<and>
   set (getFilteredTasks Completed s) = {t \<in> set (tasks s). completed t} \<and>
   set (getFilteredTasks Pending s) = {t \<in> set (tasks s). \<not> completed t}"
proof -
  have c: "completed_count (stats s) = card {i. i < length (tasks s) \<and> completed (tasks s ! i)}"
    by (simp add: stats_def length_filter_conv_card)
  have p: "pending_count (stats s) = card {i. i < length (tasks s) \<and> \<not> completed (tasks s ! i)}"
    by (simp add: stats_def length_filter_conv_card)
  have t: "completed_count (stats s) + pending_count (stats s) = total (stats s)"
    using sum_length_filter_compl [of "\<lambda>t. completed t" "tasks s"] by (simp add: stats_def)
  have l: "total (stats s) = length (tasks s)"
    by (simp add: stats_def)
  from c p t l show ?thesis by simp
qed

theorem stats_and_filters_witness:
  "stats one_done = \<lparr>total = 2, completed_count = 1, pending_count = 1\<rparr> \<and>
   getFilteredTasks All one_done = [walk_dog, buy_milk\<lparr>completed := True\<rparr>] \<and>
   getFilteredTasks Completed one_done = [buy_milk\<lparr>completed := True\<rparr>] \<and>
   getFilteredTasks Pending one_done = [walk_dog]"
  using stats_and_filters [of one_done]
  by (simp add: stats_def example_defs)

section \<open>Calls that fail\<close>

text \<open>
  C9. When the text is empty after trimming (the empty string and strings of white space
  are such texts), \<open>addTask\<close> throws the error \<^verbatim>\<open>Task text cannot be empty\<close> and the
  state, the list in it included, is as it was.
\<close>

theorem addTask_empty_text:
  assumes "trim txt = []"
  shows "addTask txt now_id r36 now_created s = (Inl (Error ''Task text cannot be empty''), s)"
  using assms by (simp add: addTask_def)

theorem addTask_empty_text_witness:
  "trim '''' = [] \<and> trim ''   '' = [] \<and>
   fst (addTask '''' 1700000000999 ''0.z5y4x3w2v1'' 1700000000999 two_tasks)
     = Inl (Error ''Task text cannot be empty'') \<and>
   tasks (snd (addTask '''' 1700000000999 ''0.z5y4x3w2v1'' 1700000000999 two_tasks))
     = [walk_dog, buy_milk] \<and>
   fst (addTask ''   '' 1700000000999 ''0.z5y4x3w2v1'' 1700000000999 two_tasks)
     = Inl (Error ''Task text cannot be empty'') \<and>
   tasks (snd (addTask ''   '' 1700000000999 ''0.z5y4x3w2v1'' 1700000000999 two_tasks))
     = [walk_dog, buy_milk]"
proof -
  have e1: "trim '''' = []" and e2: "trim ''   '' = []"
    by (simp_all add: trim_def is_ws_def)
  show ?thesis
    using e1 e2 addTask_empty_text [OF e1] addTask_empty_text [OF e2]
    by (simp add: two_tasks_def)
qed

text \<open>
  C7. For an id that no task of the list has, \<open>toggleTask\<close>, \<open>updateTask\<close> and \<open>deleteTask\<close>
  each return \<open>false\<close> and leave the list as it was. None of the three can throw: their
  result is a boolean and a state, with no error case.
\<close>

theorem unknown_id_rejected:
  assumes "tid \<notin> set (ids s)"
  shows "fst (toggleTask tid s) = False \<and> tasks (snd (toggleTask tid s)) = tasks s \<and>
         fst (updateTask tid txt s) = False \<and> tasks (snd (updateTask tid txt s)) = tasks s \<and>
         fst (deleteTask tid s) = False \<and> tasks (snd (deleteTask tid s)) = tasks s"
  using findIndex_absent [OF assms]
  by (simp add: toggleTask_def updateTask_def deleteTask_def)

theorem unknown_id_rejected_witness:
  "''nonexistent'' \<notin> set (ids two_tasks) \<and>
   toggleTask ''nonexistent'' two_tasks
     = (False, two_tasks\<lparr>effects := [ConsoleWarn (not_found_warning ''nonexistent'')]\<rparr>) \<and>
   fst (updateTask ''nonexistent'' ''Feed cat'' two_tasks) = False \<and>
   tasks (snd (updateTask ''nonexistent'' ''Feed cat'' two_tasks)) = [walk_dog, buy_milk] \<and>
   fst (deleteTask ''nonexistent'' two_tasks) = False \<and>
   tasks (snd (deleteTask ''nonexistent'' two_tasks)) = [walk_dog, buy_milk]"
proof -
  have h: "''nonexistent'' \<notin> set (ids two_tasks)"
    by (simp add: ids_def example_defs)
  have t: "toggleTask ''nonexistent'' two_tasks
     = (False, two_tasks\<lparr>effects := [ConsoleWarn (not_found_warning ''nonexistent'')]\<rparr>)"
    by (simp add: toggleTask_def example_defs)
  from unknown_id_rejected [OF h, of "''Feed cat''"] h t show ?thesis
    by (simp add: two_tasks_def)
qed

text \<open>
  C10. A call that fails writes nothing to storage. \<open>addTask\<close> with a text that is empty
  after trimming leaves the whole state as it was. \<open>toggleTask\<close>, \<open>updateTask\<close> and
  \<open>deleteTask\<close> with an id that is not in the list, and \<open>updateTask\<close> with a text that
  is empty after trimming, leave the storage as it was and add no storage call to the
  effects (they add a console warning only).
\<close>

theorem failed_call_writes_nothing:
  "(trim txt = [] \<longrightarrow> snd (addTask txt now_id r36 now_created s) = s) \<and>
   (tid \<notin> set (ids s) \<longrightarrow>
      storage (snd (toggleTask tid s)) = storage s \<and>
      filter is_write (effects (snd (toggleTask tid s))) = filter is_write (effects s) \<and>
      storage (snd (updateTask tid txt s)) = storage s \<and>
      filter is_write (effects (snd (updateTask tid txt s))) = filter is_write (effects s) \<and>
      storage (snd (deleteTask tid s)) = storage s \<and>
      filter is_write (effects (snd (deleteTask tid s))) = filter is_write (effects s)) \<and>
   (trim txt = [] \<longrightarrow>
      fst (updateTask tid txt s) = False \<and>
      storage (snd (updateTask tid txt s)) = storage s \<and>
      filter is_write (effects (snd (updateTask tid txt s))) = filter is_write (effects s))"
proof (intro conjI impI)
  assume "trim txt = []"
  then show "snd (addTask txt now_id r36 now_created s) = s"
    by (simp add: addTask_def)
next
  assume "tid \<notin> set (ids s)"
  then have n: "findIndex (\<lambda>t. id' t = tid) (tasks s) = None"
    by (rule findIndex_absent)
  from n show "storage (snd (toggleTask tid s)) = storage s"
    by (simp add: toggleTask_def)
  from n show "filter is_write (effects (snd (toggleTask tid s))) = filter is_write (effects s)"
    by (simp add: toggleTask_def is_write_def)
  from n show "storage (snd (updateTask tid txt s)) = storage s"
    by (simp add: updateTask_def)
  from n show "filter is_write (effects (snd (updateTask tid txt s))) = filter is_write (effects s)"
    by (simp add: updateTask_def is_write_def)
  from n show "storage (snd (deleteTask tid s)) = storage s"
    by (simp add: deleteTask_def)
  from n show "filter is_write (effects (snd (deleteTask tid s))) = filter is_write (effects s)"
    by (simp add: deleteTask_def is_write_def)
next
  assume e: "trim txt = []"
  then show "fst (updateTask tid txt s) = False"
    by (simp add: updateTask_def split: option.splits)
  from e show "storage (snd (updateTask tid txt s)) = storage s"
    by (simp add: updateTask_def split: option.splits)
  from e show "filter is_write (effects (snd (updateTask tid txt s))) = filter is_write (effects s)"
    by (simp add: updateTask_def is_write_def split: option.splits)
qed

theorem failed_call_writes_nothing_witness:
  "trim ''  '' = [] \<and> ''nonexistent'' \<notin> set (ids two_tasks) \<and>
   snd (addTask ''  '' 1700000000999 ''0.z5y4x3w2v1'' 1700000000999 two_tasks) = two_tasks \<and>
   items (storage (snd (toggleTask ''nonexistent'' two_tasks))) STORAGE_KEY = None \<and>
   effects (snd (toggleTask ''nonexistent'' two_tasks))
     = [ConsoleWarn (not_found_warning ''nonexistent'')] \<and>
   items (storage (snd (updateTask ''nonexistent'' ''  '' two_tasks))) STORAGE_KEY = None \<and>
   items (storage (snd (deleteTask ''nonexistent'' two_tasks))) STORAGE_KEY = None \<and>
   items (storage (snd (updateTask ''task-1700000000000-k3j9x2m'' ''  '' two_tasks))) STORAGE_KEY
     = None \<and>
   effects (snd (updateTask ''task-1700000000000-k3j9x2m'' ''  '' two_tasks))
     = [ConsoleWarn ''[TaskStore] Cannot update task with empty text'']"
proof -
  have e: "trim ''  '' = []"
    by (simp add: trim_def is_ws_def)
  have h: "''nonexistent'' \<notin> set (ids two_tasks)"
    by (simp add: ids_def example_defs)
  have t: "effects (snd (toggleTask ''nonexistent'' two_tasks))
     = [ConsoleWarn (not_found_warning ''nonexistent'')]"
    by (simp add: toggleTask_def example_defs)
  have u: "effects (snd (updateTask ''task-1700000000000-k3j9x2m'' ''  '' two_tasks))
     = [ConsoleWarn ''[TaskStore] Cannot update task with empty text'']"
    by (simp add: updateTask_def e example_defs)
  from failed_call_writes_nothing
         [of "''  ''" 1700000000999 "''0.z5y4x3w2v1''" 1700000000999 two_tasks "''nonexistent''"]
       failed_call_writes_nothing
         [of "''  ''" 0 "''''" 0 two_tasks "''task-1700000000000-k3j9x2m''"]
       e h t u
  show ?thesis
    by (simp add: two_tasks_def fresh_storage_def)
qed

section \<open>Clearing the completed tasks\<close>

text \<open>
  C5. \<open>clearCompleted\<close> returns the number \<open>k\<close> of completed tasks and leaves exactly
  the tasks that are not completed, in the order they had: the new list is the old one
  with the completed tasks filtered out, so its length and \<open>k\<close> add up to the old length.
  A second call right after the first returns 0 and leaves the list as the first left it.
\<close>

theorem clearCompleted_removes_completed:
  "fst (clearCompleted s) = length (filter (\<lambda>t. completed t) (tasks s)) \<and>
   tasks (snd (clearCompleted s)) = filter (\<lambda>t. \<not> completed t) (tasks s) \<and>
   length (tasks (snd (clearCompleted s))) + fst (clearCompleted s) = length (tasks s) \<and>
   subseq (tasks (snd (clearCompleted s))) (tasks s) \<and>
   fst (clearCompleted (snd (clearCompleted s))) = 0 \<and>
   tasks (snd (clearCompleted (snd (clearCompleted s)))) = tasks (snd (clearCompleted s))"
proof -
  have c: "fst (clearCompleted s) = length (filter (\<lambda>t. completed t) (tasks s))"
    by (simp add: clearCompleted_def Let_def)
  have t: "tasks (snd (clearCompleted s)) = filter (\<lambda>t. \<not> completed t) (tasks s)"
    by (simp add: clearCompleted_def Let_def)
  have l: "length (filter (\<lambda>t. \<not> completed t) (tasks s)) + length (filter (\<lambda>t. completed t) (tasks s))
             = length (tasks s)"
    using sum_length_filter_compl [of "\<lambda>t. completed t" "tasks s"] by simp
  have again: "fst (clearCompleted (snd (clearCompleted s))) = 0"
    by (simp add: clearCompleted_def Let_def)
  have same: "tasks (snd (clearCompleted (snd (clearCompleted s)))) = tasks (snd (clearCompleted s))"
    by (simp add: clearCompleted_def Let_def)
  from c t l again same show ?thesis by simp
qed

theorem clearCompleted_removes_completed_witness:
  "fst (clearCompleted one_done) = 1 \<and>
   tasks (snd (clearCompleted one_done)) = [walk_dog] \<and>
   fst (clearCompleted (snd (clearCompleted one_done))) = 0 \<and>
   tasks (snd (clearCompleted (snd (clearCompleted one_done)))) = [walk_dog]"
  using clearCompleted_removes_completed [of one_done]
  by (simp add: example_defs)

section \<open>Toggling a task\<close>

text \<open>
  C6. For an id that some task of the list has, \<open>toggleTask\<close> returns \<open>true\<close> and changes
  one task, the first with that id: its \<open>completed\<close> flag is negated, its \<open>id\<close>, \<open>text\<close>,
  \<open>createdAt\<close> (and further properties) stay, and the task at every other position is
  the same as before. \<open>stats\<close> has the same \<open>total\<close> after the call; one of \<open>completed\<close>
  and \<open>pending\<close> has grown by one and the other has shrunk by one.
\<close>

theorem toggleTask_flips_one:
  assumes "tid \<in> set (ids s)"
  shows "\<exists>i<length (tasks s).
           id' (tasks s ! i) = tid \<and> (\<forall>j<i. id' (tasks s ! j) \<noteq> tid) \<and>
           fst (toggleTask tid s) = True \<and>
           length (tasks (snd (toggleTask tid s))) = length (tasks s) \<and>
           completed (tasks (snd (toggleTask tid s)) ! i) = (\<not> completed (tasks s ! i)) \<and>
           id' (tasks (snd (toggleTask tid s)) ! i) = id' (tasks s ! i) \<and>
           text (tasks (snd (toggleTask tid s)) ! i) = text (tasks s ! i) \<and>
           createdAt (tasks (snd (toggleTask tid s)) ! i) = createdAt (tasks s ! i) \<and>
           others (tasks (snd (toggleTask tid s)) ! i) = others (tasks s ! i) \<and>
           (\<forall>j<length (tasks s). j \<noteq> i \<longrightarrow> tasks (snd (toggleTask tid s)) ! j = tasks s ! j) \<and>
           total (stats (snd (toggleTask tid s))) = total (stats s) \<and>
           (if completed (tasks s ! i)
            then completed_count (stats (snd (toggleTask tid s))) + 1 = completed_count (stats s) \<and>
                 pending_count (stats (snd (toggleTask tid s))) = pending_count (stats s) + 1
            else completed_count (stats (snd (toggleTask tid s))) = completed_count (stats s) + 1 \<and>
                 pending_count (stats (snd (toggleTask tid s))) + 1 = pending_count (stats s))"
proof -
  from findIndex_present [OF assms] obtain i
    where f: "findIndex (\<lambda>t. id' t = tid) (tasks s) = Some i" ..
  from findIndex_Some [OF f]
  have i: "i < length (tasks s)" and m: "id' (tasks s ! i) = tid"
    and first: "\<forall>j<i. id' (tasks s ! j) \<noteq> tid"
    by simp_all
  let ?t = "tasks s ! i"
  let ?t' = "?t\<lparr>completed := \<not> completed ?t\<rparr>"
  have ts: "tasks (snd (toggleTask tid s)) = (tasks s)[i := ?t']"
    using f by (simp add: toggleTask_def)
  have r: "fst (toggleTask tid s) = True"
    using f by (simp add: toggleTask_def)
  have c: "length (filter (\<lambda>t. completed t) ((tasks s)[i := ?t'])) + (if completed ?t then 1 else 0)
             = length (filter (\<lambda>t. completed t) (tasks s)) + (if completed ?t' then 1 else 0)"
    using i by (rule length_filter_update)
  have p: "length (filter (\<lambda>t. \<not> completed t) ((tasks s)[i := ?t'])) + (if \<not> completed ?t then 1 else 0)
             = length (filter (\<lambda>t. \<not> completed t) (tasks s)) + (if \<not> completed ?t' then 1 else 0)"
    using i by (rule length_filter_update)
  have counts: "if completed ?t
            then completed_count (stats (snd (toggleTask tid s))) + 1 = completed_count (stats s) \<and>
                 pending_count (stats (snd (toggleTask tid s))) = pending_count (stats s) + 1
            else completed_count (stats (snd (toggleTask tid s))) = completed_count (stats s) + 1 \<and>
                 pending_count (stats (snd (toggleTask tid s))) + 1 = pending_count (stats s)"
    using c p by (simp add: stats_def ts split: if_splits)
  have tot: "total (stats (snd (toggleTask tid s))) = total (stats s)"
    by (simp add: stats_def ts)
  have frame: "\<forall>j<length (tasks s). j \<noteq> i \<longrightarrow> tasks (snd (toggleTask tid s)) ! j = tasks s ! j"
    by (simp add: ts)
  have here: "tasks (snd (toggleTask tid s)) ! i = ?t'"
    using i by (simp add: ts)
  show ?thesis
  proof (intro exI conjI)
    show "i < length (tasks s)" by (rule i)
    show "id' (tasks s ! i) = tid" by (rule m)
    show "\<forall>j<i. id' (tasks s ! j) \<noteq> tid" by (rule first)
    show "fst (toggleTask tid s) = True" by (rule r)
    show "length (tasks (snd (toggleTask tid s))) = length (tasks s)" by (simp add: ts)
    show "completed (tasks (snd (toggleTask tid s)) ! i) = (\<not> completed (tasks s ! i))"
      by (simp add: here)
    show "id' (tasks (snd (toggleTask tid s)) ! i) = id' (tasks s ! i)" by (simp add: here)
    show "text (tasks (snd (toggleTask tid s)) ! i) = text (tasks s ! i)" by (simp add: here)
    show "createdAt (tasks (snd (toggleTask tid s)) ! i) = createdAt (tasks s ! i)"
      by (simp add: here)
    show "others (tasks (snd (toggleTask tid s)) ! i) = others (tasks s ! i)" by (simp add: here)
    show "\<forall>j<length (tasks s). j \<noteq> i \<longrightarrow> tasks (snd (toggleTask tid s)) ! j = tasks s ! j"
      by (rule frame)
    show "total (stats (snd (toggleTask tid s))) = total (stats s)" by (rule tot)
    show "if completed (tasks s ! i)
            then completed_count (stats (snd (toggleTask tid s))) + 1 = completed_count (stats s) \<and>
                 pending_count (stats (snd (toggleTask tid s))) = pending_count (stats s) + 1
            else completed_count (stats (snd (toggleTask tid s))) = completed_count (stats s) + 1 \<and>
                 pending_count (stats (snd (toggleTask tid s))) + 1 = pending_count (stats s)"
      by (rule counts)
  qed
qed

theorem toggleTask_flips_one_witness:
  "''task-1700000000000-k3j9x2m'' \<in> set (ids two_tasks) \<and>
   fst (toggleTask ''task-1700000000000-k3j9x2m'' two_tasks) = True \<and>
   tasks (snd (toggleTask ''task-1700000000000-k3j9x2m'' two_tasks))
     = [walk_dog, buy_milk\<lparr>completed := True\<rparr>] \<and>
   stats two_tasks = \<lparr>total = 2, completed_count = 0, pending_count = 2\<rparr> \<and>
   stats (snd (toggleTask ''task-1700000000000-k3j9x2m'' two_tasks))
     = \<lparr>total = 2, completed_count = 1, pending_count = 1\<rparr>"
proof -
  have h: "''task-1700000000000-k3j9x2m'' \<in> set (ids two_tasks)"
    by (simp add: ids_def example_defs)
  have t: "tasks (snd (toggleTask ''task-1700000000000-k3j9x2m'' two_tasks))
     = [walk_dog, buy_milk\<lparr>completed := True\<rparr>]"
    by (simp add: toggleTask_def example_defs)
  have s: "stats two_tasks = \<lparr>total = 2, completed_count = 0, pending_count = 2\<rparr>"
    by (simp add: stats_def example_defs)
  from toggleTask_flips_one [OF h] obtain i where
    "fst (toggleTask ''task-1700000000000-k3j9x2m'' two_tasks) = True"
    by blast
  with h t s show ?thesis
    by (simp add: stats_def example_defs)
qed

section \<open>Creating the store\<close>

text \<open>
  The check of the source and the wording of the specification accept the same values:
  an element that has the four properties is an object, so the two leading tests of the
  source (\<^verbatim>\<open>typeof item === 'object'\<close>, \<^verbatim>\<open>item !== null\<close>) exclude nothing more.
\<close>

lemma typeof_string_iff: "typeof v = T_string \<longleftrightarrow> is_string v"
  by (cases v rule: typeof.cases) simp_all

lemma typeof_boolean_iff: "typeof v = T_boolean \<longleftrightarrow> is_boolean v"
  by (cases v rule: typeof.cases) simp_all

lemma typeof_number_iff: "typeof v = T_number \<longleftrightarrow> is_number v"
  by (cases v rule: typeof.cases) simp_all

lemma isTask_iff: "isTask x \<longleftrightarrow> spec_element_ok x"
  by (cases x) (auto simp: isTask_def spec_element_ok_def typeof_string_iff typeof_boolean_iff typeof_number_iff)

lemma isValidTaskArray_iff: "isValidTaskArray v \<longleftrightarrow> spec_snapshot_ok v"
proof -
  have "isTask = spec_element_ok"
    by (rule ext) (rule isTask_iff)
  then show ?thesis
    by (cases v) (simp_all add: isValidTaskArray_def spec_snapshot_ok_def)
qed

lemma is_string_cases: "is_string v \<Longrightarrow> \<exists>s. v = Some (JStr s)"
  by (cases v rule: is_string.cases) simp_all

lemma is_boolean_cases: "is_boolean v \<Longrightarrow> \<exists>b. v = Some (JBool b)"
  by (cases v rule: is_boolean.cases) simp_all

lemma is_number_cases: "is_number v \<Longrightarrow> \<exists>n. v = Some (JNum n)"
  by (cases v rule: is_number.cases) simp_all

lemma asTask_defined:
  assumes "spec_element_ok x"
  shows "\<exists>t. asTask x = Some t"
proof -
  from assms obtain i t c n where
    p: "get_prop x ''id'' = Some (JStr i)" "get_prop x ''text'' = Some (JStr t)"
       "get_prop x ''completed'' = Some (JBool c)" "get_prop x ''createdAt'' = Some (JNum n)"
    unfolding spec_element_ok_def
    by (blast dest: is_string_cases is_boolean_cases is_number_cases)
  from p(1) obtain fs where "x = JObj fs"
    by (cases x) simp_all
  with p show ?thesis
    by (simp add: asTask_def)
qed

lemma map_of_filter_keys:
  "map_of (filter (\<lambda>kv. fst kv \<notin> K) fs) k = (if k \<in> K then None else map_of fs k)"
  by (induction fs) auto

lemma asTask_same_properties:
  assumes "asTask x = Some t"
  shows "get_prop (toJSON t) k = get_prop x k"
proof -
  from assms obtain fs i tx c n where
    x: "x = JObj fs" and
    p: "map_of fs ''id'' = Some (JStr i)" "map_of fs ''text'' = Some (JStr tx)"
       "map_of fs ''completed'' = Some (JBool c)" "map_of fs ''createdAt'' = Some (JNum n)" and
    t: "t = \<lparr>id' = i, text = tx, completed = c, createdAt = n,
              others = filter (\<lambda>kv. fst kv \<notin> set task_keys) fs\<rparr>"
    by (auto simp: asTask_def split: json.splits option.splits)
  have o: "map_of (others t) k = (if k \<in> set task_keys then None else map_of fs k)"
    by (simp add: t map_of_filter_keys)
  have f: "id' t = i" "text t = tx" "completed t = c" "createdAt t = n"
    by (simp_all add: t)
  show ?thesis
    using p by (simp add: x toJSON_def o f task_keys_def)
qed

lemma asTasks_Some:
  "asTasks xs = Some ts \<Longrightarrow> list_all2 (\<lambda>x t. asTask x = Some t) xs ts"
  by (induction xs arbitrary: ts) (auto split: option.splits)

lemma asTasks_valid:
  "list_all spec_element_ok xs \<Longrightarrow> \<exists>ts. asTasks xs = Some ts"
proof (induction xs)
  case Nil
  show ?case by simp
next
  case (Cons x xs)
  then obtain t ts where "asTask x = Some t" "asTasks xs = Some ts"
    using asTask_defined by fastforce
  then show ?case by simp
qed

lemma load_throws:
  "getItem ls STORAGE_KEY = Inl e \<Longrightarrow>
   loadTasksFromStorage ls = ([], ls, [ConsoleError ''[TaskStore] Error loading tasks from storage:'' e])"
  by (simp add: loadTasksFromStorage_def)

lemma load_invalid:
  "getItem ls STORAGE_KEY = Inr v \<Longrightarrow> v \<noteq> JNull \<Longrightarrow> \<not> spec_snapshot_ok v \<Longrightarrow>
   loadTasksFromStorage ls =
     ([], removeItem ls STORAGE_KEY,
      [ConsoleWarn ''[TaskStore] Invalid data in localStorage, resetting tasks'',
       StorageRemove STORAGE_KEY])"
  by (simp add: loadTasksFromStorage_def isValidTaskArray_iff)

lemma load_valid:
  assumes "getItem ls STORAGE_KEY = Inr (JArr xs)" "list_all spec_element_ok xs"
  shows "\<exists>ts. asTasks xs = Some ts \<and> loadTasksFromStorage ls = (ts, ls, [])"
proof -
  from asTasks_valid [OF assms(2)] obtain ts where ts: "asTasks xs = Some ts" ..
  have "isValidTaskArray (JArr xs)"
    using assms(2) by (simp add: isValidTaskArray_iff spec_snapshot_ok_def)
  with assms(1) ts show ?thesis
    by (simp add: loadTasksFromStorage_def)
qed

text \<open>
  C3. Let the read of the storage key return a value \<open>v\<close>. The store takes \<open>v\<close> over in
  full (\<open>v\<close> is an array, the list has one task per element, and every task has exactly
  the properties of its element) if and only if \<open>v\<close> is an array whose elements all have
  a string \<open>id\<close>, a string \<open>text\<close>, a boolean \<open>completed\<close> and a numeric \<open>createdAt\<close>;
  the storage is then left as it was. If \<open>v\<close> is not \<open>null\<close> and fails the check, for
  one element or as a whole, the list is empty and the key is removed from storage.
  If the read throws, the store is created all the same, with an empty list and the
  storage untouched.
\<close>

theorem snapshot_all_or_nothing:
  "(\<forall>v. getItem ls STORAGE_KEY = Inr v \<longrightarrow>
        ((\<exists>xs. v = JArr xs \<and> length (tasks (useTaskStore ls)) = length xs \<and>
               (\<forall>i<length xs. \<forall>k. get_prop (toJSON (tasks (useTaskStore ls) ! i)) k
                                     = get_prop (xs ! i) k))
           \<longleftrightarrow> spec_snapshot_ok v) \<and>
        (spec_snapshot_ok v \<longrightarrow> storage (useTaskStore ls) = ls) \<and>
        (v \<noteq> JNull \<and> \<not> spec_snapshot_ok v \<longrightarrow>
           tasks (useTaskStore ls) = [] \<and>
           storage (useTaskStore ls) = removeItem ls STORAGE_KEY \<and>
           items (storage (useTaskStore ls)) STORAGE_KEY = None)) \<and>
   (\<forall>e. getItem ls STORAGE_KEY = Inl e \<longrightarrow>
        tasks (useTaskStore ls) = [] \<and> storage (useTaskStore ls) = ls)"
proof (intro conjI allI impI)
  fix e
  assume "getItem ls STORAGE_KEY = Inl e"
  from load_throws [OF this]
  show "tasks (useTaskStore ls) = []" and "storage (useTaskStore ls) = ls"
    by (simp_all add: useTaskStore_def)
next
  fix v
  assume g: "getItem ls STORAGE_KEY = Inr v"
  {
    assume ok: "spec_snapshot_ok v"
    then obtain xs where v: "v = JArr xs" and all: "list_all spec_element_ok xs"
      by (auto simp: spec_snapshot_ok_def split: json.splits)
    from load_valid [OF g [unfolded v] all] obtain ts where
      ts: "asTasks xs = Some ts" and l: "loadTasksFromStorage ls = (ts, ls, [])"
      by blast
    from l show "storage (useTaskStore ls) = ls"
      by (simp add: useTaskStore_def)
  }
  {
    assume "v \<noteq> JNull \<and> \<not> spec_snapshot_ok v"
    then have n: "v \<noteq> JNull" and bad: "\<not> spec_snapshot_ok v"
      by simp_all
    from load_invalid [OF g n bad]
    show "tasks (useTaskStore ls) = []"
      and "storage (useTaskStore ls) = removeItem ls STORAGE_KEY"
      and "items (storage (useTaskStore ls)) STORAGE_KEY = None"
      by (simp_all add: useTaskStore_def removeItem_def)
  }
  show "(\<exists>xs. v = JArr xs \<and> length (tasks (useTaskStore ls)) = length xs \<and>
               (\<forall>i<length xs. \<forall>k. get_prop (toJSON (tasks (useTaskStore ls) ! i)) k
                                     = get_prop (xs ! i) k))
           \<longleftrightarrow> spec_snapshot_ok v"
  proof
    assume ok: "spec_snapshot_ok v"
    then obtain xs where v: "v = JArr xs" and all: "list_all spec_element_ok xs"
      by (auto simp: spec_snapshot_ok_def split: json.splits)
    from load_valid [OF g [unfolded v] all] obtain ts where
      ts: "asTasks xs = Some ts" and l: "loadTasksFromStorage ls = (ts, ls, [])"
      by blast
    from l have t: "tasks (useTaskStore ls) = ts"
      by (simp add: useTaskStore_def)
    from asTasks_Some [OF ts] have a: "list_all2 (\<lambda>x t. asTask x = Some t) xs ts" .
    then have len: "length ts = length xs"
      by (simp add: list_all2_lengthD)
    have "\<forall>i<length xs. \<forall>k. get_prop (toJSON (ts ! i)) k = get_prop (xs ! i) k"
      using a by (simp add: list_all2_conv_all_nth asTask_same_properties)
    with v t len
    show "\<exists>xs. v = JArr xs \<and> length (tasks (useTaskStore ls)) = length xs \<and>
               (\<forall>i<length xs. \<forall>k. get_prop (toJSON (tasks (useTaskStore ls) ! i)) k
                                     = get_prop (xs ! i) k)"
      by simp
  next
    assume "\<exists>xs. v = JArr xs \<and> length (tasks (useTaskStore ls)) = length xs \<and>
               (\<forall>i<length xs. \<forall>k. get_prop (toJSON (tasks (useTaskStore ls) ! i)) k
                                     = get_prop (xs ! i) k)"
    then obtain xs where v: "v = JArr xs" and len: "length (tasks (useTaskStore ls)) = length xs"
      by blast
    show "spec_snapshot_ok v"
    proof (rule ccontr)
      assume bad: "\<not> spec_snapshot_ok v"
      have n: "v \<noteq> JNull" using v by simp
      from load_invalid [OF g n bad] have "tasks (useTaskStore ls) = []"
        by (simp add: useTaskStore_def)
      with len have "xs = []" by simp
      with v bad show False
        by (simp add: spec_snapshot_ok_def)
    qed
  qed
qed

text \<open>
  C3 on three storages: a good snapshot of two tasks (the second with a further
  property, which is kept), a snapshot whose second element lacks \<open>completed\<close>, and a
  storage whose read throws.
\<close>

theorem snapshot_all_or_nothing_witness:
  "getItem saved_storage STORAGE_KEY = Inr saved_snapshot \<and>
   spec_snapshot_ok saved_snapshot \<and>
   tasks (useTaskStore saved_storage)
     = [walk_dog, buy_milk\<lparr>others := [(''note'', JStr ''2 litres'')]\<rparr>] \<and>
   storage (useTaskStore saved_storage) = saved_storage \<and>
   getItem corrupt_storage STORAGE_KEY = Inr corrupt_snapshot \<and>
   corrupt_snapshot \<noteq> JNull \<and>
   \<not> spec_snapshot_ok corrupt_snapshot \<and>
   tasks (useTaskStore corrupt_storage) = [] \<and>
   items (storage (useTaskStore corrupt_storage)) STORAGE_KEY = None \<and>
   getItem unreadable_storage STORAGE_KEY = Inl (Error ''SecurityError'') \<and>
   tasks (useTaskStore unreadable_storage) = []"
proof -
  have g1: "getItem saved_storage STORAGE_KEY = Inr saved_snapshot"
    by (simp add: getItem_def saved_storage_def)
  have ok: "spec_snapshot_ok saved_snapshot"
    by (simp add: spec_snapshot_ok_def spec_element_ok_def saved_snapshot_def)
  have ts: "tasks (useTaskStore saved_storage)
     = [walk_dog, buy_milk\<lparr>others := [(''note'', JStr ''2 litres'')]\<rparr>]"
    using g1 ok
    by (simp add: useTaskStore_def loadTasksFromStorage_def isValidTaskArray_iff)
       (simp add: saved_snapshot_def asTask_def task_keys_def walk_dog_def buy_milk_def)
  have g2: "getItem corrupt_storage STORAGE_KEY = Inr corrupt_snapshot"
    by (simp add: getItem_def corrupt_storage_def)
  have n: "corrupt_snapshot \<noteq> JNull"
    by (simp add: corrupt_snapshot_def)
  have bad: "\<not> spec_snapshot_ok corrupt_snapshot"
    by (simp add: spec_snapshot_ok_def spec_element_ok_def corrupt_snapshot_def)
  have g3: "getItem unreadable_storage STORAGE_KEY = Inl (Error ''SecurityError'')"
    by (simp add: getItem_def unreadable_storage_def)
  from snapshot_all_or_nothing [of saved_storage] g1 ok
  have s1: "storage (useTaskStore saved_storage) = saved_storage"
    by blast
  from snapshot_all_or_nothing [of corrupt_storage] g2 n bad
  have s2: "tasks (useTaskStore corrupt_storage) = []"
    "items (storage (useTaskStore corrupt_storage)) STORAGE_KEY = None"
    by blast+
  from snapshot_all_or_nothing [of unreadable_storage] g3
  have s3: "tasks (useTaskStore unreadable_storage) = []"
    by blast
  from g1 ok ts s1 g2 n bad s2 g3 s3 show ?thesis
    by simp
qed

section \<open>The ids of the list\<close>

text \<open>What each operation does to the list of ids.\<close>

lemma ids_toggleTask: "ids (snd (toggleTask tid s)) = ids s"
proof (cases "findIndex (\<lambda>t. id' t = tid) (tasks s)")
  case None
  then show ?thesis by (simp add: toggleTask_def ids_def)
next
  case (Some i)
  from findIndex_Some [OF Some] have "i < length (tasks s)" by simp
  then have "(map id' (tasks s))[i := id' (tasks s ! i)] = map id' (tasks s)"
    by (simp add: list_update_same_conv)
  with Some show ?thesis
    by (simp add: toggleTask_def ids_def map_update)
qed

lemma ids_updateTask: "ids (snd (updateTask tid txt s)) = ids s"
proof (cases "findIndex (\<lambda>t. id' t = tid) (tasks s)")
  case None
  then show ?thesis by (simp add: updateTask_def ids_def)
next
  case (Some i)
  from findIndex_Some [OF Some] have "i < length (tasks s)" by simp
  then have "(map id' (tasks s))[i := id' (tasks s ! i)] = map id' (tasks s)"
    by (simp add: list_update_same_conv)
  with Some show ?thesis
    by (simp add: updateTask_def ids_def map_update Let_def)
qed

lemma distinct_remove_nth: "distinct xs \<Longrightarrow> distinct (take i xs @ drop (Suc i) xs)"
  by (simp add: set_take_disj_set_drop_if_distinct)

lemma ids_deleteTask:
  "ids (snd (deleteTask tid s)) =
     (case findIndex (\<lambda>t. id' t = tid) (tasks s) of
        None \<Rightarrow> ids s
      | Some i \<Rightarrow> take i (ids s) @ drop (Suc i) (ids s))"
  by (simp add: deleteTask_def ids_def take_map drop_map split: option.splits)

lemma ids_clearCompleted: "ids (snd (clearCompleted s)) = map id' (filter (\<lambda>t. \<not> completed t) (tasks s))"
  by (simp add: clearCompleted_def ids_def Let_def)

lemma ids_addTask:
  "ids (snd (addTask txt now_id r36 now_created s)) =
     (if trim txt = [] then ids s else generateId now_id r36 # ids s)"
  by (simp add: addTask_def ids_def Let_def)

text \<open>A store created from a good snapshot has the ids of the snapshot, in order.\<close>

lemma asTask_id: "asTask x = Some t \<Longrightarrow> get_prop x ''id'' = Some (JStr (id' t))"
  using asTask_same_properties [of x t "''id''"] by (simp add: toJSON_def)

lemma ids_created:
  assumes "getItem ls STORAGE_KEY = Inr (JArr xs)" and "spec_snapshot_ok (JArr xs)"
  shows "map (\<lambda>i. Some (JStr i)) (ids (useTaskStore ls)) = map (\<lambda>x. get_prop x ''id'') xs"
proof -
  from assms(2) have all: "list_all spec_element_ok xs"
    by (simp add: spec_snapshot_ok_def)
  from load_valid [OF assms(1) all] obtain ts where
    ts: "asTasks xs = Some ts" and l: "loadTasksFromStorage ls = (ts, ls, [])"
    by blast
  from l have t: "tasks (useTaskStore ls) = ts"
    by (simp add: useTaskStore_def)
  from asTasks_Some [OF ts] have a: "list_all2 (\<lambda>x t. asTask x = Some t) xs ts" .
  then have "list_all2 (\<lambda>x t. get_prop x ''id'' = Some (JStr (id' t))) xs ts"
    by (rule list_all2_mono) (rule asTask_id)
  then have "map (\<lambda>x. get_prop x ''id'') xs = map (\<lambda>t. Some (JStr (id' t))) ts"
    by (induction rule: list_all2_induct) simp_all
  then show ?thesis
    by (simp add: ids_def t comp_def)
qed

text \<open>Values used in the examples.\<close>

lemma trim_buy_milk: "trim ''Buy milk'' = ''Buy milk''"
  by (simp add: trim_def is_ws_def)

lemma generateId_buy_milk: "generateId 1700000000000 ''0.k3j9x2m1p8'' = ''task-1700000000000-k3j9x2m''"
  by (simp add: generateId_def number_to_string_def substring_def dec.simps)

lemma tasks_fresh_store: "tasks (useTaskStore fresh_storage) = []"
  by (simp add: useTaskStore_def loadTasksFromStorage_def getItem_def fresh_storage_def)

lemma after_first_add_tasks: "tasks after_first_add = [buy_milk]"
  by (simp add: after_first_add_def addTask_def trim_buy_milk generateId_buy_milk tasks_fresh_store buy_milk_def Let_def)

lemma trim_walk_dog: "trim ''Walk dog'' = ''Walk dog''"
  by (simp add: trim_def is_ws_def)

lemma saved_storage_read: "getItem saved_storage STORAGE_KEY = Inr saved_snapshot"
  by (simp add: getItem_def saved_storage_def)

lemma saved_snapshot_ok: "spec_snapshot_ok saved_snapshot"
  by (simp add: spec_snapshot_ok_def spec_element_ok_def saved_snapshot_def)

lemma ids_two_tasks: "ids two_tasks = [''task-1700000000555-q8w2e4r'', ''task-1700000000000-k3j9x2m'']"
  by (simp add: ids_def example_defs)

text \<open>
  C4, as amended. From a list whose ids are pairwise distinct, \<open>toggleTask\<close>,
  \<open>updateTask\<close>, \<open>deleteTask\<close> and \<open>clearCompleted\<close> lead to a list whose ids are
  pairwise distinct. A store created from a good snapshot has the ids of the
  snapshot's elements, in their order, so its ids are pairwise distinct exactly when
  those of the snapshot are: the check at creation is one of shape and does not
  compare ids.
\<close>

theorem ids_stay_distinct:
  "(distinct (ids s) \<longrightarrow>
      distinct (ids (snd (toggleTask tid s))) \<and>
      distinct (ids (snd (updateTask tid txt s))) \<and>
      distinct (ids (snd (deleteTask tid s))) \<and>
      distinct (ids (snd (clearCompleted s)))) \<and>
   (getItem ls STORAGE_KEY = Inr (JArr xs) \<and> spec_snapshot_ok (JArr xs) \<longrightarrow>
      map (\<lambda>i. Some (JStr i)) (ids (useTaskStore ls)) = map (\<lambda>x. get_prop x ''id'') xs \<and>
      (distinct (ids (useTaskStore ls)) \<longleftrightarrow> distinct (map (\<lambda>x. get_prop x ''id'') xs)))"
proof (intro conjI impI)
  assume d: "distinct (ids s)"
  show "distinct (ids (snd (toggleTask tid s)))"
    using d by (simp add: ids_toggleTask)
  show "distinct (ids (snd (updateTask tid txt s)))"
    using d by (simp add: ids_updateTask)
  show "distinct (ids (snd (deleteTask tid s)))"
  proof (cases "findIndex (\<lambda>t. id' t = tid) (tasks s)")
    case None
    with d show ?thesis by (simp add: ids_deleteTask)
  next
    case (Some i)
    from distinct_remove_nth [OF d, of i] Some show ?thesis
      by (simp only: ids_deleteTask option.case)
  qed
  have "distinct (map id' (tasks s))"
    using d by (simp add: ids_def)
  then show "distinct (ids (snd (clearCompleted s)))"
    by (simp add: ids_clearCompleted distinct_map_filter)
next
  assume a: "getItem ls STORAGE_KEY = Inr (JArr xs) \<and> spec_snapshot_ok (JArr xs)"
  then have m: "map (\<lambda>i. Some (JStr i)) (ids (useTaskStore ls)) = map (\<lambda>x. get_prop x ''id'') xs"
    by (simp add: ids_created)
  show "map (\<lambda>i. Some (JStr i)) (ids (useTaskStore ls)) = map (\<lambda>x. get_prop x ''id'') xs"
    by (rule m)
  have "distinct (map (\<lambda>i. Some (JStr i)) (ids (useTaskStore ls))) \<longleftrightarrow> distinct (ids (useTaskStore ls))"
    by (simp add: distinct_map inj_on_def)
  with m show "distinct (ids (useTaskStore ls)) \<longleftrightarrow> distinct (map (\<lambda>x. get_prop x ''id'') xs)"
    by simp
qed

text \<open>
  C4 on the list of two tasks: each of the four operations keeps the ids distinct. The
  store created from the saved snapshot has the two ids of the snapshot.
\<close>

theorem ids_stay_distinct_witness:
  "distinct (ids two_tasks) \<and>
   distinct (ids (snd (toggleTask ''task-1700000000000-k3j9x2m'' two_tasks))) \<and>
   distinct (ids (snd (updateTask ''task-1700000000000-k3j9x2m'' ''Buy oat milk'' two_tasks))) \<and>
   ids (snd (deleteTask ''task-1700000000000-k3j9x2m'' two_tasks)) = [''task-1700000000555-q8w2e4r''] \<and>
   distinct (ids (snd (deleteTask ''task-1700000000000-k3j9x2m'' two_tasks))) \<and>
   distinct (ids (snd (clearCompleted two_tasks))) \<and>
   getItem saved_storage STORAGE_KEY = Inr saved_snapshot \<and>
   spec_snapshot_ok saved_snapshot \<and>
   ids (useTaskStore saved_storage) = [''task-1700000000555-q8w2e4r'', ''task-1700000000000-k3j9x2m''] \<and>
   distinct (ids (useTaskStore saved_storage))"
proof -
  have d: "distinct (ids two_tasks)"
    by (simp add: ids_two_tasks)
  note r = saved_storage_read [unfolded saved_snapshot_def]
  note k = saved_snapshot_ok [unfolded saved_snapshot_def]
  from ids_stay_distinct [of two_tasks "''task-1700000000000-k3j9x2m''"
         "''Buy oat milk''" saved_storage] d r k
  have a: "distinct (ids (snd (toggleTask ''task-1700000000000-k3j9x2m'' two_tasks)))"
    "distinct (ids (snd (updateTask ''task-1700000000000-k3j9x2m'' ''Buy oat milk'' two_tasks)))"
    "distinct (ids (snd (deleteTask ''task-1700000000000-k3j9x2m'' two_tasks)))"
    "distinct (ids (snd (clearCompleted two_tasks)))"
    "map (\<lambda>i. Some (JStr i)) (ids (useTaskStore saved_storage))
       = [Some (JStr ''task-1700000000555-q8w2e4r''), Some (JStr ''task-1700000000000-k3j9x2m'')]"
    by simp_all
  from a(5) have i: "ids (useTaskStore saved_storage)
       = [''task-1700000000555-q8w2e4r'', ''task-1700000000000-k3j9x2m'']"
    by (auto simp: map_eq_Cons_conv)
  have del: "ids (snd (deleteTask ''task-1700000000000-k3j9x2m'' two_tasks))
       = [''task-1700000000555-q8w2e4r'']"
    by (simp add: ids_def deleteTask_def example_defs)
  from d a(1-4) i del saved_storage_read saved_snapshot_ok show ?thesis
    by simp
qed

text \<open>
  C4 as stated fails. A snapshot in which two elements carry the same id passes
  \<open>isValidTaskArray\<close>, which looks at the type of each \<open>id\<close> only, so the store is created
  with a list in which an id occurs twice.
\<close>

theorem repeated_ids_counterexample:
  "reachable (useTaskStore repeated_storage) \<and>
   ids (useTaskStore repeated_storage) = [''task-1'', ''task-1''] \<and>
   \<not> distinct (ids (useTaskStore repeated_storage))"
proof -
  have "ids (useTaskStore repeated_storage) = [''task-1'', ''task-1'']"
    by (simp add: ids_def useTaskStore_def loadTasksFromStorage_def getItem_def
        repeated_storage_def repeated_snapshot_def isValidTaskArray_def isTask_def asTask_def)
  then show ?thesis
    by (simp add: reachable.created)
qed

section \<open>Adding a task\<close>

text \<open>
  What \<open>addTask\<close> does when the text is not empty after trimming: it returns a new task
  with the trimmed text, \<open>completed = false\<close>, \<open>createdAt\<close> the clock reading, and as id
  the string that \<open>generateId\<close> builds from the clock reading and the random draw. The
  task is put at index 0, the list is one longer and the tasks that were in it follow
  unchanged.
\<close>

lemma addTask_success:
  assumes "trim txt \<noteq> []"
  shows "\<exists>newTask.
           fst (addTask txt now_id r36 now_created s) = Inr newTask \<and>
           text newTask = trim txt \<and>
           completed newTask = False \<and>
           id' newTask = generateId now_id r36 \<and>
           createdAt newTask = now_created \<and>
           tasks (snd (addTask txt now_id r36 now_created s)) = newTask # tasks s \<and>
           tasks (snd (addTask txt now_id r36 now_created s)) ! 0 = newTask \<and>
           length (tasks (snd (addTask txt now_id r36 now_created s))) = length (tasks s) + 1 \<and>
           (\<forall>i<length (tasks s).
              tasks (snd (addTask txt now_id r36 now_created s)) ! Suc i = tasks s ! i)"
proof -
  let ?new = "\<lparr>id' = generateId now_id r36, text = trim txt, completed = False,
               createdAt = now_created, others = []\<rparr>"
  have r: "fst (addTask txt now_id r36 now_created s) = Inr ?new"
    using assms by (simp add: addTask_def Let_def)
  have t: "tasks (snd (addTask txt now_id r36 now_created s)) = ?new # tasks s"
    using assms by (simp add: addTask_def Let_def)
  show ?thesis
  proof (intro exI conjI)
    show "fst (addTask txt now_id r36 now_created s) = Inr ?new" by (rule r)
    show "text ?new = trim txt" by simp
    show "completed ?new = False" by simp
    show "id' ?new = generateId now_id r36" by simp
    show "createdAt ?new = now_created" by simp
    show "tasks (snd (addTask txt now_id r36 now_created s)) = ?new # tasks s" by (rule t)
    show "tasks (snd (addTask txt now_id r36 now_created s)) ! 0 = ?new" by (simp add: t)
    show "length (tasks (snd (addTask txt now_id r36 now_created s))) = length (tasks s) + 1"
      by (simp add: t)
    show "\<forall>i<length (tasks s). tasks (snd (addTask txt now_id r36 now_created s)) ! Suc i = tasks s ! i"
      by (simp add: t)
  qed
qed

text \<open>
  C1. The id of the task that \<open>addTask\<close> returns is to differ from the id of every task
  already in the list, and \<open>generateId\<close> is documented to return a unique id. The source
  builds the id from the clock reading and the random draw and compares it with
  nothing. Here a store is created empty and \<open>addTask\<close> is called twice within the same
  millisecond, \<^verbatim>\<open>Math.random()\<close> giving the same number both times: the first call
  leaves a list whose one task has the id \<^verbatim>\<open>task-1700000000000-k3j9x2m\<close>, and the
  second call returns a task with that same id and puts it in front, so the list has
  the id twice.
\<close>

theorem addTask_repeated_id:
  "trim ''Walk dog'' = ''Walk dog'' \<and>
   reachable after_first_add \<and>
   ids after_first_add = [''task-1700000000000-k3j9x2m''] \<and>
   fst (addTask ''Walk dog'' 1700000000000 ''0.k3j9x2m1p8'' 1700000000000 after_first_add)
     = Inr \<lparr>id' = ''task-1700000000000-k3j9x2m'', text = ''Walk dog'', completed = False,
            createdAt = 1700000000000, others = []\<rparr> \<and>
   ids (snd (addTask ''Walk dog'' 1700000000000 ''0.k3j9x2m1p8'' 1700000000000 after_first_add))
     = [''task-1700000000000-k3j9x2m'', ''task-1700000000000-k3j9x2m'']"
proof -
  have r: "reachable after_first_add"
    unfolding after_first_add_def by (intro reachable.added reachable.created)
  have i: "ids after_first_add = [''task-1700000000000-k3j9x2m'']"
    by (simp add: ids_def after_first_add_tasks buy_milk_def)
  have a: "fst (addTask ''Walk dog'' 1700000000000 ''0.k3j9x2m1p8'' 1700000000000 after_first_add)
     = Inr \<lparr>id' = ''task-1700000000000-k3j9x2m'', text = ''Walk dog'', completed = False,
            createdAt = 1700000000000, others = []\<rparr>"
    by (simp add: addTask_def trim_walk_dog generateId_buy_milk Let_def)
  have b: "ids (snd (addTask ''Walk dog'' 1700000000000 ''0.k3j9x2m1p8'' 1700000000000 after_first_add))
     = [''task-1700000000000-k3j9x2m'', ''task-1700000000000-k3j9x2m'']"
    by (simp add: ids_addTask trim_walk_dog generateId_buy_milk i)
  from r i a b show ?thesis
    by (simp add: trim_walk_dog)
qed

section \<open>Updating a task\<close>

lemma warnings_differ: "not_found_warning tid \<noteq> ''[TaskStore] Cannot update task with empty text''"
  by (simp add: not_found_warning_def)

text \<open>
  C2, as amended. For an id that is in the list and a text that is empty after
  trimming, \<open>updateTask\<close> returns \<open>false\<close> and changes neither a task nor the storage.
  \<open>false\<close> is also what it returns for an id that is not in the list, with the same
  list left behind: the result does not tell the two failures apart. They differ in the
  warning written to the console only.
\<close>

theorem updateTask_empty_text:
  assumes "tid \<in> set (ids s)" and "trim txt = []"
  shows "fst (updateTask tid txt s) = False \<and>
         tasks (snd (updateTask tid txt s)) = tasks s \<and>
         storage (snd (updateTask tid txt s)) = storage s \<and>
         effects (snd (updateTask tid txt s))
           = effects s @ [ConsoleWarn ''[TaskStore] Cannot update task with empty text''] \<and>
         (\<forall>tid' txt'. tid' \<notin> set (ids s) \<longrightarrow>
            fst (updateTask tid' txt' s) = fst (updateTask tid txt s) \<and>
            tasks (snd (updateTask tid' txt' s)) = tasks (snd (updateTask tid txt s)) \<and>
            effects (snd (updateTask tid' txt' s)) = effects s @ [ConsoleWarn (not_found_warning tid')] \<and>
            effects (snd (updateTask tid' txt' s)) \<noteq> effects (snd (updateTask tid txt s)))"
proof -
  from findIndex_present [OF assms(1)] obtain i
    where f: "findIndex (\<lambda>t. id' t = tid) (tasks s) = Some i" ..
  have u: "updateTask tid txt s
     = (False, s\<lparr>effects := effects s @ [ConsoleWarn ''[TaskStore] Cannot update task with empty text'']\<rparr>)"
    using f assms(2) by (simp add: updateTask_def)
  have n: "updateTask tid' txt' s
     = (False, s\<lparr>effects := effects s @ [ConsoleWarn (not_found_warning tid')]\<rparr>)"
    if "tid' \<notin> set (ids s)" for tid' txt'
    using findIndex_absent [OF that] by (simp add: updateTask_def)
  show ?thesis
    using n by (simp add: u warnings_differ)
qed

theorem updateTask_empty_text_witness:
  "''task-1700000000000-k3j9x2m'' \<in> set (ids two_tasks) \<and> trim ''   '' = [] \<and>
   fst (updateTask ''task-1700000000000-k3j9x2m'' ''   '' two_tasks) = False \<and>
   tasks (snd (updateTask ''task-1700000000000-k3j9x2m'' ''   '' two_tasks)) = [walk_dog, buy_milk] \<and>
   effects (snd (updateTask ''task-1700000000000-k3j9x2m'' ''   '' two_tasks))
     = [ConsoleWarn ''[TaskStore] Cannot update task with empty text'']"
proof -
  have h: "''task-1700000000000-k3j9x2m'' \<in> set (ids two_tasks)"
    by (simp add: ids_two_tasks)
  have e: "trim ''   '' = []"
    by (simp add: trim_def is_ws_def)
  from updateTask_empty_text [OF h e] h e show ?thesis
    by (simp add: two_tasks_def)
qed

text \<open>
  C2 as stated fails: \<open>updateTask\<close> with the id of \<open>Buy milk\<close> and the empty text, and
  \<open>updateTask\<close> with an id that no task has, return the same value.
\<close>

theorem updateTask_same_failure_counterexample:
  "''task-1700000000000-k3j9x2m'' \<in> set (ids two_tasks) \<and>
   trim '''' = [] \<and>
   ''nonexistent'' \<notin> set (ids two_tasks) \<and>
   fst (updateTask ''task-1700000000000-k3j9x2m'' '''' two_tasks) = False \<and>
   fst (updateTask ''nonexistent'' ''Feed cat'' two_tasks) = False"
proof -
  have p: "''task-1700000000000-k3j9x2m'' \<in> set (ids two_tasks)"
    and a: "''nonexistent'' \<notin> set (ids two_tasks)"
    by (simp_all add: ids_two_tasks)
  have e: "trim '''' = []"
    by (simp add: trim_def)
  have u1: "fst (updateTask ''task-1700000000000-k3j9x2m'' '''' two_tasks) = False"
    by (simp add: updateTask_def e example_defs)
  have u2: "fst (updateTask ''nonexistent'' ''Feed cat'' two_tasks) = False"
    by (simp add: updateTask_def example_defs)
  from p a e u1 u2 show ?thesis by simp
qed

end
